theory Spec2Isabelle
  imports Complex_Main "HOL-Library.Multiset" "HOL-Library.Sublist"
begin

section \<open>Data model (types/flashcard.ts)\<close>

text \<open>
  The payload of \<open>ADD_CARD\<close> is \<open>Omit<Flashcard, 'id' | 'createdAt'>\<close>; a
  \<open>Flashcard\<close> is that payload extended by \<open>id\<close> and \<open>createdAt\<close>, which is how
  the reducer builds it (\<open>{...action.payload, id, createdAt}\<close>). Field names that
  clash with Isabelle keywords or constants carry the suffix \<open>_f\<close>.

  TypeScript types are erased at run time and the object spread copies whatever
  properties the payload has. The persistence layer checks
  \<open>typeof card.mastered === 'boolean'\<close> on every card it loads, so the model keeps
  \<open>mastered\<close> as an optional property: \<open>None\<close> is the JavaScript \<open>undefined\<close>
  (property absent). The optional fields \<open>partOfSpeech\<close> and \<open>exampleSentences\<close>
  are optional in the source type as well.
\<close>

record CardPayload =
  term_f :: string
  definition_f :: string
  mastered :: "bool option"
  partOfSpeech :: "string option"
  exampleSentences :: "string list option"

record Flashcard = CardPayload +
  id_f :: string
  createdAt :: string

datatype Filter = All | NeedsReview

record CardState =
  cards :: "Flashcard list"
  filter_f :: Filter
  currentCardIndex :: int

text \<open>
  \<open>UpdateFlashcardInput = Partial<Pick<Flashcard, 'term' | 'definition' |
  'partOfSpeech' | 'exampleSentences'>>\<close>. The outer \<open>option\<close> says whether the
  key is present in the update object. For the two optional fields a present key may
  carry \<open>undefined\<close>, which is the inner \<open>None\<close>.
\<close>

record UpdateFlashcardInput =
  upd_term :: "string option"
  upd_definition :: "string option"
  upd_partOfSpeech :: "string option option"
  upd_exampleSentences :: "string list option option"

datatype CardAction =
    ADD_CARD CardPayload
  | UPDATE_CARD string UpdateFlashcardInput
  | DELETE_CARD string
  | TOGGLE_MASTERED string
  | SET_FILTER Filter
  | NAVIGATE int
  | SHUFFLE_CARDS
  | BULK_IMPORT "Flashcard list"
  | LOAD_CARDS "Flashcard list"

text \<open>
  The reducer calls \<open>crypto.randomUUID()\<close>, \<open>new Date().toISOString()\<close> and
  \<open>Math.random()\<close>. Their results are inputs of the model: \<open>random env k\<close> is the
  value of the \<open>k\<close>-th call of \<open>Math.random()\<close> during one reducer call.
\<close>

record Env =
  randomUUID :: string
  toISOString :: string
  random :: "nat \<Rightarrow> real"

section \<open>Reducer (contexts/CardContext.tsx)\<close>

definition initialState :: CardState where
  "initialState = \<lparr>cards = [], filter_f = All, currentCardIndex = 0\<rparr>"

text \<open>JavaScript truthiness of the \<open>mastered\<close> property, as used by \<open>!card.mastered\<close>.\<close>

definition truthy :: "bool option \<Rightarrow> bool" where
  "truthy m = (m = Some True)"

text \<open>\<open>{ ...action.payload, id: crypto.randomUUID(), createdAt: new Date().toISOString() }\<close>\<close>

definition newCard :: "Env \<Rightarrow> CardPayload \<Rightarrow> Flashcard" where
  "newCard env payload =
     \<lparr>term_f = term_f payload, definition_f = definition_f payload,
      mastered = mastered payload, partOfSpeech = partOfSpeech payload,
      exampleSentences = exampleSentences payload,
      id_f = randomUUID env, createdAt = toISOString env\<rparr>"

text \<open>\<open>{ ...card, ...updates }\<close>: every key present in \<open>updates\<close> overrides the card's.\<close>

definition mergeUpdates :: "Flashcard \<Rightarrow> UpdateFlashcardInput \<Rightarrow> Flashcard" where
  "mergeUpdates c updates =
     c\<lparr>term_f := (case upd_term updates of None \<Rightarrow> term_f c | Some t \<Rightarrow> t),
          definition_f := (case upd_definition updates of None \<Rightarrow> definition_f c | Some d \<Rightarrow> d),
          partOfSpeech := (case upd_partOfSpeech updates of None \<Rightarrow> partOfSpeech c | Some p \<Rightarrow> p),
          exampleSentences :=
            (case upd_exampleSentences updates of None \<Rightarrow> exampleSentences c | Some e \<Rightarrow> e)\<rparr>"

text \<open>
  \<open>[shuffled[i], shuffled[j]] = [shuffled[j], shuffled[i]]\<close>: both reads happen before
  both writes.
\<close>

definition swap :: "nat \<Rightarrow> nat \<Rightarrow> 'a list \<Rightarrow> 'a list" where
  "swap i j xs = xs[i := xs ! j, j := xs ! i]"

text \<open>
  \<open>for (let i = shuffled.length - 1; i > 0; i--) { const j = Math.floor(Math.random() * (i + 1)); ... }\<close>.
  The second argument counts the calls of \<open>Math.random()\<close> made so far. With
  \<open>Math.random()\<close> in \<open>[0, 1)\<close> the index \<open>j\<close> lies in \<open>0..i\<close>, so both reads of
  \<open>swap\<close> are in range.
\<close>

fun shuffleLoop :: "(nat \<Rightarrow> real) \<Rightarrow> nat \<Rightarrow> nat \<Rightarrow> 'a list \<Rightarrow> 'a list" where
  "shuffleLoop rnd k 0 shuffled = shuffled"
| "shuffleLoop rnd k (Suc i) shuffled =
     (let j = nat \<lfloor>rnd k * (real (Suc i) + 1)\<rfloor>
      in shuffleLoop rnd (Suc k) i (swap (Suc i) j shuffled))"

fun cardReducer :: "Env \<Rightarrow> CardState \<Rightarrow> CardAction \<Rightarrow> CardState" where
  "cardReducer env state (ADD_CARD payload) =
     state\<lparr>cards := cards state @ [newCard env payload]\<rparr>"
| "cardReducer env state (UPDATE_CARD ident updates) =
     state\<lparr>cards := map (\<lambda>c. if id_f c = ident then mergeUpdates c updates else c)
                        (cards state)\<rparr>"
| "cardReducer env state (DELETE_CARD cardId) =
     (let newCards = filter (\<lambda>c. id_f c \<noteq> cardId) (cards state);
          newIndex = currentCardIndex state;
          newIndex' =
            (if newIndex \<ge> int (length newCards) \<and> length newCards > 0
             then int (length newCards) - 1
             else if length newCards = 0 then 0 else newIndex)
      in state\<lparr>cards := newCards, currentCardIndex := newIndex'\<rparr>)"
| "cardReducer env state (TOGGLE_MASTERED cardId) =
     state\<lparr>cards := map (\<lambda>c. if id_f c = cardId
                                 then c\<lparr>mastered := Some (\<not> truthy (mastered c))\<rparr>
                                 else c)
                        (cards state)\<rparr>"
| "cardReducer env state (SET_FILTER f) =
     state\<lparr>filter_f := f, currentCardIndex := 0\<rparr>"
| "cardReducer env state (NAVIGATE newIndex) =
     (let maxIndex = int (length (cards state)) - 1;
          clampedIndex = max 0 (min newIndex maxIndex)
      in state\<lparr>currentCardIndex := clampedIndex\<rparr>)"
| "cardReducer env state SHUFFLE_CARDS =
     (let shuffled = shuffleLoop (random env) 0 (length (cards state) - 1) (cards state)
      in state\<lparr>cards := shuffled, currentCardIndex := 0\<rparr>)"
| "cardReducer env state (BULK_IMPORT payload) =
     state\<lparr>cards := cards state @ payload\<rparr>"
| "cardReducer env state (LOAD_CARDS payload) =
     state\<lparr>cards := payload\<rparr>"

text \<open>A sequence of dispatched commands, each with the environment it runs in.\<close>

fun dispatchAll :: "CardState \<Rightarrow> (Env \<times> CardAction) list \<Rightarrow> CardState" where
  "dispatchAll state [] = state"
| "dispatchAll state ((env, action) # rest) = dispatchAll (cardReducer env state action) rest"

section \<open>Selectors (utils/cardSelectors.ts)\<close>

definition getVisibleCards :: "CardState \<Rightarrow> Flashcard list" where
  "getVisibleCards state =
     (if filter_f state = NeedsReview
      then filter (\<lambda>c. \<not> truthy (mastered c)) (cards state)
      else cards state)"

text \<open>
  \<open>visibleCards[state.currentCardIndex] || null\<close>: an index outside the array reads
  \<open>undefined\<close>, which \<open>||\<close> turns into \<open>null\<close>; a card object is always truthy.
\<close>

definition getCurrentCard :: "CardState \<Rightarrow> Flashcard option" where
  "getCurrentCard state =
     (let visibleCards = getVisibleCards state; i = currentCardIndex state
      in if 0 \<le> i \<and> i < int (length visibleCards) then Some (visibleCards ! nat i) else None)"

text \<open>The cursor invariant of the data model: \<open>0 \<le> currentCardIndex < max(1, visibleCards.length)\<close>.\<close>

definition cursorInvariant :: "CardState \<Rightarrow> bool" where
  "cursorInvariant state =
     (0 \<le> currentCardIndex state \<and>
      currentCardIndex state < max 1 (int (length (getVisibleCards state))))"

section \<open>Strings\<close>

text \<open>
  A JavaScript string is a sequence of UTF-16 code units and \<open>length\<close> counts them.
  The model uses \<open>string\<close>, one \<open>char\<close> per code unit, which covers the code units
  below 256. Of the characters that \<open>String.prototype.trim\<close> removes, those in that
  range are TAB, LF, VT, FF, CR, SPACE and NBSP.
\<close>

definition isWhitespace :: "char \<Rightarrow> bool" where
  "isWhitespace ch = (ch \<in> {CHR 0x09, CHR 0x0A, CHR 0x0B, CHR 0x0C, CHR 0x0D, CHR 0x20, CHR 0xA0})"

definition trim :: "string \<Rightarrow> string" where
  "trim s = rev (dropWhile isWhitespace (rev (dropWhile isWhitespace s)))"

text \<open>\<open>s.split(sep)\<close> for a separator of one character; the result is never empty.\<close>

fun split :: "char \<Rightarrow> string \<Rightarrow> string list" where
  "split sep [] = [[]]"
| "split sep (ch # s) =
     (if ch = sep then [] # split sep s
      else (case split sep s of piece # pieces \<Rightarrow> (ch # piece) # pieces | [] \<Rightarrow> [[ch]]))"

text \<open>\<open>parts.join(sep)\<close>\<close>

fun join :: "string \<Rightarrow> string list \<Rightarrow> string" where
  "join sep [] = []"
| "join sep [piece] = piece"
| "join sep (piece # pieces) = piece @ sep @ join sep pieces"

text \<open>The decimal form of a non-negative integer, as a template literal prints it.\<close>

definition digitChar :: "nat \<Rightarrow> char" where
  "digitChar d = ''0123456789'' ! d"

fun toString :: "nat \<Rightarrow> string" where
  "toString n = (if n < 10 then [digitChar n] else toString (n div 10) @ [digitChar (n mod 10)])"

declare toString.simps [simp del]

section \<open>Bulk import parser (utils/bulkImport.ts)\<close>

definition MAX_VOCABULARY_LENGTH :: nat where "MAX_VOCABULARY_LENGTH = 100"
definition MAX_MEANING_LENGTH :: nat where "MAX_MEANING_LENGTH = 500"
definition PART_OF_SPEECH_MAX_LENGTH :: nat where "PART_OF_SPEECH_MAX_LENGTH = 50"
definition EXAMPLE_SENTENCE_MAX_LENGTH :: nat where "EXAMPLE_SENTENCE_MAX_LENGTH = 500"
definition MAX_EXAMPLE_SENTENCES :: nat where "MAX_EXAMPLE_SENTENCES = 5"

record FailedEntry =
  rawText :: string
  error :: string

record BulkImportResult =
  successful :: "Flashcard list"
  failed :: "FailedEntry list"

text \<open>
  The parser calls \<open>crypto.randomUUID()\<close> and \<open>new Date().toISOString()\<close> once for
  every card it creates: \<open>uuidAt env k\<close> and \<open>isoTimeAt env k\<close> are the results of the
  \<open>k\<close>-th such calls (counting from 0).
\<close>

record ImportEnv =
  uuidAt :: "nat \<Rightarrow> string"
  isoTimeAt :: "nat \<Rightarrow> string"

text \<open>
  The inner loop over the examples: the first example longer than the limit stops the
  loop with an error that reports its length.
\<close>

fun firstTooLong :: "string list \<Rightarrow> nat option" where
  "firstTooLong [] = None"
| "firstTooLong (example # examples) =
     (if length example > EXAMPLE_SENTENCE_MAX_LENGTH then Some (length example)
      else firstTooLong examples)"

text \<open>
  The body of the loop over the entries, from the split on commas to the fields of the
  card, for a trimmed, non-empty entry. \<open>Inl\<close> carries the error message of a
  \<open>failed.push(...); continue\<close>; \<open>Inr\<close> carries the fields of the card to create. The
  checks are in the order of the source.
\<close>

definition parseEntry :: "string \<Rightarrow> string + CardPayload" where
  "parseEntry trimmedEntry =
     (let parts = map trim (split CHR '','' trimmedEntry) in
      if length parts < 2 then
        Inl ''Missing comma separator. Expected format: \"vocabulary, meaning[, partOfSpeech[, examples]]\"''
      else
        let vocabulary = parts ! 0;
            meaning = parts ! 1;
            partOfSpeech = (if length parts \<ge> 3 then Some (parts ! 2) else None);
            examplesRaw = (if length parts \<ge> 4 then Some (trim (join '','' (drop 3 parts))) else None)
        in
        if vocabulary = [] then Inl ''Vocabulary cannot be empty''
        else if length vocabulary > MAX_VOCABULARY_LENGTH then
          Inl (''Vocabulary exceeds '' @ toString MAX_VOCABULARY_LENGTH @ '' characters ('' @
               toString (length vocabulary) @ '' chars)'')
        else if meaning = [] then Inl ''Meaning cannot be empty''
        else if length meaning > MAX_MEANING_LENGTH then
          Inl (''Meaning exceeds '' @ toString MAX_MEANING_LENGTH @ '' characters ('' @
               toString (length meaning) @ '' chars)'')
        else if (case partOfSpeech of None \<Rightarrow> False
                 | Some p \<Rightarrow> length p > 0 \<and> length p > PART_OF_SPEECH_MAX_LENGTH) then
          Inl (''Part of speech exceeds '' @ toString PART_OF_SPEECH_MAX_LENGTH @ '' characters ('' @
               toString (length (the partOfSpeech)) @ '' chars)'')
        else
          let examples =
                (case examplesRaw of None \<Rightarrow> []
                 | Some raw \<Rightarrow> filter (\<lambda>ex. length ex > 0) (map trim (split CHR ''|'' raw)))
          in
          if length examples > MAX_EXAMPLE_SENTENCES then
            Inl (''Too many examples ('' @ toString (length examples) @ ''). Maximum is '' @
                 toString MAX_EXAMPLE_SENTENCES)
          else
            (case firstTooLong examples of
               Some n \<Rightarrow>
                 Inl (''Example sentence exceeds '' @ toString EXAMPLE_SENTENCE_MAX_LENGTH @
                      '' characters ('' @ toString n @ '' chars)'')
             | None \<Rightarrow>
                 Inr \<lparr>term_f = vocabulary, definition_f = meaning, mastered = Some False,
                      partOfSpeech =
                        (case partOfSpeech of None \<Rightarrow> None
                         | Some p \<Rightarrow> if length p > 0 then Some p else None),
                      exampleSentences = (if length examples > 0 then Some examples else None)\<rparr>))"

text \<open>The card built from the fields of an entry when \<open>k\<close> cards were created before it.\<close>

definition importedCard :: "ImportEnv \<Rightarrow> nat \<Rightarrow> CardPayload \<Rightarrow> Flashcard" where
  "importedCard env k parsed =
     \<lparr>term_f = term_f parsed, definition_f = definition_f parsed, mastered = mastered parsed,
      partOfSpeech = partOfSpeech parsed, exampleSentences = exampleSentences parsed,
      id_f = uuidAt env k, createdAt = isoTimeAt env k\<rparr>"

text \<open>One iteration of \<open>for (const entry of allEntries)\<close>.\<close>

definition processEntry :: "ImportEnv \<Rightarrow> BulkImportResult \<Rightarrow> string \<Rightarrow> BulkImportResult" where
  "processEntry env result entry =
     (let trimmedEntry = trim entry in
      if trimmedEntry = [] then result
      else
        (case parseEntry trimmedEntry of
           Inl message \<Rightarrow>
             result\<lparr>failed := failed result @ [\<lparr>rawText = trimmedEntry, error = message\<rparr>]\<rparr>
         | Inr parsed \<Rightarrow>
             result\<lparr>successful :=
               successful result @ [importedCard env (length (successful result)) parsed]\<rparr>))"

definition parseBulkImportText :: "ImportEnv \<Rightarrow> string \<Rightarrow> BulkImportResult" where
  "parseBulkImportText env text =
     (if text = [] \<or> length (trim text) = 0 then \<lparr>successful = [], failed = []\<rparr>
      else
        let hasNewlines = (CHR 0x0A \<in> set text);
            allEntries = (if hasNewlines then split (CHR 0x0A) text else split CHR '';'' text)
        in foldl (processEntry env) \<lparr>successful = [], failed = []\<rparr> allEntries)"

section \<open>Auxiliary notions for the parser's batch behaviour\<close>

text \<open>
  The fields of the entries that pass validation, and the failure records of those
  that do not, in the order of the entries; blank entries contribute to neither.
  \<open>importedCards env k\<close> builds the cards for a list of fields when \<open>k\<close> cards
  were created before.
\<close>

definition goodPayloads :: "string list \<Rightarrow> CardPayload list" where
  "goodPayloads entries =
     concat (map (\<lambda>entry. if trim entry = [] then []
                           else (case parseEntry (trim entry) of Inr p \<Rightarrow> [p] | Inl _ \<Rightarrow> [])) entries)"

definition badEntries :: "string list \<Rightarrow> FailedEntry list" where
  "badEntries entries =
     concat (map (\<lambda>entry. if trim entry = [] then []
                           else (case parseEntry (trim entry) of
                                   Inl message \<Rightarrow> [\<lparr>rawText = trim entry, error = message\<rparr>]
                                 | Inr _ \<Rightarrow> [])) entries)"

fun importedCards :: "ImportEnv \<Rightarrow> nat \<Rightarrow> CardPayload list \<Rightarrow> Flashcard list" where
  "importedCards env k [] = []"
| "importedCards env k (p # ps) = importedCard env k p # importedCards env (Suc k) ps"

section \<open>Persistence (hooks/useLocalStorage.ts)\<close>

text \<open>
  JavaScript values as \<open>JSON.parse\<close> produces them. An object is a finite map from
  property names to values; a property that is absent reads as \<open>undefined\<close>, which is
  \<open>None\<close>.
\<close>

datatype json =
    JNull
  | JBool bool
  | JNum real
  | JStr string
  | JArr "json list"
  | JObj "string \<Rightarrow> json option"

text \<open>
  The text of a storage item. \<open>JSON.stringify\<close> and \<open>JSON.parse\<close> are functions of
  the platform: the text that \<open>JSON.stringify\<close> writes for a value is represented by
  that value (\<open>JsonText\<close>), and \<open>JSON.parse\<close> gives the value back; on any other
  text (\<open>OtherText\<close>) \<open>JSON.parse\<close> throws a \<open>SyntaxError\<close>.
\<close>

datatype stored = JsonText json | OtherText string

datatype js_error =
    DOMException string
  | SyntaxError
  | TypeError
  | Error string

text \<open>
  \<open>localStorage\<close>: \<open>getItem\<close> and \<open>setItem\<close> throw a \<open>SecurityError\<close> when access
  to the storage is denied, and \<open>setItem\<close> throws a \<open>QuotaExceededError\<close> when the
  platform cannot store the new value; a call that throws leaves the items as they
  were.
\<close>

record Storage =
  items :: "string \<Rightarrow> stored option"
  accessDenied :: bool
  quotaExceeded :: "string \<Rightarrow> stored \<Rightarrow> bool"

definition getItem :: "Storage \<Rightarrow> string \<Rightarrow> js_error + stored option" where
  "getItem st key =
     (if accessDenied st then Inl (DOMException ''SecurityError'') else Inr (items st key))"

definition setItem :: "Storage \<Rightarrow> string \<Rightarrow> stored \<Rightarrow> (js_error + unit) \<times> Storage" where
  "setItem st key v =
     (if accessDenied st then (Inl (DOMException ''SecurityError''), st)
      else if quotaExceeded st key v then (Inl (DOMException ''QuotaExceededError''), st)
      else (Inr (), st\<lparr>items := (items st)(key \<mapsto> v)\<rparr>))"

definition STORAGE_KEY :: string where "STORAGE_KEY = ''flashcards-app-data''"
definition CURRENT_VERSION :: string where "CURRENT_VERSION = ''1.0''"

text \<open>
  What \<open>JSON.stringify\<close> writes for a card: the properties that are \<open>undefined\<close> are
  left out.
\<close>

definition toJSON :: "Flashcard \<Rightarrow> json" where
  "toJSON c =
     JObj ((\<lambda>key. None)
       (''id'' \<mapsto> JStr (id_f c),
        ''term'' \<mapsto> JStr (term_f c),
        ''definition'' \<mapsto> JStr (definition_f c),
        ''mastered'' := map_option JBool (mastered c),
        ''createdAt'' \<mapsto> JStr (createdAt c),
        ''partOfSpeech'' := map_option JStr (partOfSpeech c),
        ''exampleSentences'' := map_option (\<lambda>examples. JArr (map JStr examples)) (exampleSentences c)))"

text \<open>\<open>{ version: CURRENT_VERSION, cards, lastModified: new Date().toISOString() }\<close>\<close>

definition storageSchema :: "string \<Rightarrow> Flashcard list \<Rightarrow> json" where
  "storageSchema now cs =
     JObj ((\<lambda>key. None)
       (''version'' \<mapsto> JStr CURRENT_VERSION,
        ''cards'' \<mapsto> JArr (map toJSON cs),
        ''lastModified'' \<mapsto> JStr now))"

definition quotaMessage :: "nat \<Rightarrow> string" where
  "quotaMessage n =
     ''Storage limit exceeded. You have too many flashcards. '' @
     ''Please delete some cards or export your collection. '' @
     ''(Current: '' @ toString n @ '' cards)''"

definition securityMessage :: string where
  "securityMessage =
     ''Browser storage is disabled. Your flashcards will not be saved. '' @
     ''Please enable storage or check your browser privacy settings.''"

text \<open>
  \<open>saveToLocalStorage(cards)\<close>; \<open>now\<close> is the result of \<open>new Date().toISOString()\<close>.
  The result is the exception thrown to the caller, if any, and the storage after the
  call.
\<close>

definition saveToLocalStorage ::
  "string \<Rightarrow> Flashcard list \<Rightarrow> Storage \<Rightarrow> (js_error + unit) \<times> Storage" where
  "saveToLocalStorage now cs st =
     (let data = storageSchema now cs;
          jsonString = JsonText data
      in case setItem st STORAGE_KEY jsonString of
           (Inr u, st') \<Rightarrow> (Inr (), st')
         | (Inl err, st') \<Rightarrow>
             if err = DOMException ''QuotaExceededError'' then
               (Inl (Error (quotaMessage (length cs))), st')
             else if err = DOMException ''SecurityError'' then
               (Inl (Error securityMessage), st')
             else (Inl err, st'))"

text \<open>
  Reading a property: of \<open>null\<close> it throws a \<open>TypeError\<close>, of an object it gives the
  property, and of the other values it gives \<open>undefined\<close> for the names used here.
\<close>

definition getProp :: "json \<Rightarrow> string \<Rightarrow> js_error + json option" where
  "getProp v key =
     (case v of JNull \<Rightarrow> Inl TypeError | JObj props \<Rightarrow> Inr (props key) | _ \<Rightarrow> Inr None)"

text \<open>Truthiness of a value that may be \<open>undefined\<close>.\<close>

definition truthyValue :: "json option \<Rightarrow> bool" where
  "truthyValue v =
     (case v of
        None \<Rightarrow> False
      | Some JNull \<Rightarrow> False
      | Some (JBool b) \<Rightarrow> b
      | Some (JNum x) \<Rightarrow> x \<noteq> 0
      | Some (JStr s) \<Rightarrow> s \<noteq> []
      | Some (JArr _) \<Rightarrow> True
      | Some (JObj _) \<Rightarrow> True)"

definition isStringValue :: "json option \<Rightarrow> bool" where
  "isStringValue v = (case v of Some (JStr _) \<Rightarrow> True | _ \<Rightarrow> False)"

definition isBooleanValue :: "json option \<Rightarrow> bool" where
  "isBooleanValue v = (case v of Some (JBool _) \<Rightarrow> True | _ \<Rightarrow> False)"

text \<open>
  The predicate of \<open>data.cards.filter(...)\<close>:
  \<open>card.id && typeof card.term === 'string' && typeof card.definition === 'string' &&
  typeof card.mastered === 'boolean' && typeof card.createdAt === 'string'\<close>.
  Reading \<open>card.id\<close> throws when the element is \<open>null\<close>.
\<close>

definition isValid :: "json \<Rightarrow> js_error + bool" where
  "isValid c =
     (case c of
        JNull \<Rightarrow> Inl TypeError
      | JObj props \<Rightarrow>
          Inr (truthyValue (props ''id'') \<and> isStringValue (props ''term'') \<and>
               isStringValue (props ''definition'') \<and> isBooleanValue (props ''mastered'') \<and>
               isStringValue (props ''createdAt''))
      | _ \<Rightarrow> Inr False)"

text \<open>\<open>Array.prototype.filter\<close> with a predicate that may throw.\<close>

fun filterValid :: "json list \<Rightarrow> js_error + json list" where
  "filterValid [] = Inr []"
| "filterValid (c # cs) =
     (case isValid c of
        Inl err \<Rightarrow> Inl err
      | Inr keep \<Rightarrow>
          (case filterValid cs of
             Inl err \<Rightarrow> Inl err
           | Inr rest \<Rightarrow> Inr (if keep then c # rest else rest)))"

text \<open>\<open>migrateData\<close>: only version 1.0 exists, data of another version is discarded.\<close>

definition migrateData :: "json \<Rightarrow> json list" where
  "migrateData data = []"

text \<open>
  The \<open>try\<close> block of \<open>loadFromLocalStorage\<close>: the cards to return, or the exception
  that reaches the \<open>catch\<close> clause.
\<close>

definition loadBody :: "Storage \<Rightarrow> js_error + json list" where
  "loadBody st =
     (case getItem st STORAGE_KEY of
        Inl err \<Rightarrow> Inl err
      | Inr None \<Rightarrow> Inr []
      | Inr (Some (OtherText s)) \<Rightarrow> (if s = [] then Inr [] else Inl SyntaxError)
      | Inr (Some (JsonText data)) \<Rightarrow>
          (case getProp data ''version'' of
             Inl err \<Rightarrow> Inl err
           | Inr version \<Rightarrow>
               if version \<noteq> Some (JStr CURRENT_VERSION) then Inr (migrateData data)
               else
                 (case getProp data ''cards'' of
                    Inl err \<Rightarrow> Inl err
                  | Inr (Some (JArr cs)) \<Rightarrow> filterValid cs
                  | Inr _ \<Rightarrow> Inr [])))"

text \<open>
  \<open>loadFromLocalStorage()\<close>; \<open>nowMs\<close> is the result of \<open>Date.now()\<close>. Every exception
  ends in the empty list. After a \<open>SyntaxError\<close> the raw text is copied to a backup
  key; a failure of that write is caught and logged.
\<close>

definition loadFromLocalStorage :: "nat \<Rightarrow> Storage \<Rightarrow> json list \<times> Storage" where
  "loadFromLocalStorage nowMs st =
     (case loadBody st of
        Inr validCards \<Rightarrow> (validCards, st)
      | Inl err \<Rightarrow>
          if err = SyntaxError then
            (case getItem st STORAGE_KEY of
               Inr (Some raw) \<Rightarrow>
                 if raw = OtherText [] then ([], st)
                 else
                   (let backupKey = STORAGE_KEY @ ''-corrupted-'' @ toString nowMs
                    in ([], snd (setItem st backupKey raw)))
             | _ \<Rightarrow> ([], st))
          else ([], st))"

text \<open>
  The effect of \<open>CardProvider\<close> that runs when \<open>state.cards\<close> has changed: it saves the
  cards and, when the save throws, shows the error's message. The result is the state,
  the storage and the error shown, if any.
\<close>

definition syncToStorage ::
  "string \<Rightarrow> CardState \<Rightarrow> Storage \<Rightarrow> CardState \<times> Storage \<times> js_error option" where
  "syncToStorage now state st =
     (case saveToLocalStorage now (cards state) st of
        (Inr u, st') \<Rightarrow> (state, st', None)
      | (Inl err, st') \<Rightarrow> (state, st', Some err))"

section \<open>Sample data\<close>

definition env0 :: Env where
  "env0 = \<lparr>randomUUID = ''id-0'', toISOString = ''2025-01-01T00:00:00.000Z'',
           random = (\<lambda>_. 1 / 2)\<rparr>"

definition cardA :: Flashcard where
  "cardA = \<lparr>term_f = ''apple'', definition_f = ''fruit'', mastered = Some True,
            partOfSpeech = None, exampleSentences = None,
            id_f = ''a'', createdAt = ''2025-01-01T00:00:00.000Z''\<rparr>"

definition cardB :: Flashcard where
  "cardB = \<lparr>term_f = ''book'', definition_f = ''reading material'', mastered = Some False,
            partOfSpeech = Some ''noun'', exampleSentences = Some [''I read a book''],
            id_f = ''b'', createdAt = ''2025-01-02T00:00:00.000Z''\<rparr>"

definition cardC :: Flashcard where
  "cardC = \<lparr>term_f = ''car'', definition_f = ''vehicle'', mastered = Some False,
            partOfSpeech = None, exampleSentences = None,
            id_f = ''c'', createdAt = ''2025-01-03T00:00:00.000Z''\<rparr>"

definition updates0 :: UpdateFlashcardInput where
  "updates0 = \<lparr>upd_term = Some ''bike'', upd_definition = None,
               upd_partOfSpeech = None, upd_exampleSentences = Some None\<rparr>"

definition ienv0 :: ImportEnv where
  "ienv0 = \<lparr>uuidAt = (\<lambda>k. ''id-'' @ toString k),
            isoTimeAt = (\<lambda>k. ''2025-01-01T00:00:0'' @ toString k @ ''.000Z'')\<rparr>"

definition lines0 :: "string list" where
  "lines0 = [''apple, fruit'', ''  onlyoneterm  '', ''run, to move quickly, verb'']"


definition fullStorage :: Storage where
  "fullStorage = \<lparr>items = (\<lambda>key. None)(STORAGE_KEY \<mapsto> JsonText (storageSchema ''2025-01-01T00:00:00.000Z'' [cardA])),
                  accessDenied = False, quotaExceeded = (\<lambda>key v. True)\<rparr>"

section \<open>Properties of the reducer and the selectors\<close>

lemma shuffleLoop_mset:
  assumes "\<And>k. 0 \<le> rnd k \<and> rnd k < 1"
  shows "i < length xs \<or> i = 0 \<Longrightarrow> mset (shuffleLoop rnd k i xs) = mset xs"
proof (induction i arbitrary: k xs)
  case 0
  show ?case by simp
next
  case (Suc i)
  then have len: "Suc i < length xs" by simp
  define j where "j = nat \<lfloor>rnd k * (real (Suc i) + 1)\<rfloor>"
  have "rnd k * (real (Suc i) + 1) < real (Suc i) + 1"
    using assms[of k] by (simp add: mult_less_cancel_right1)
  then have "\<lfloor>rnd k * (real (Suc i) + 1)\<rfloor> < int (Suc i) + 1"
    by (simp add: floor_less_iff)
  then have "j \<le> Suc i" unfolding j_def by linarith
  with len have jlen: "j < length xs" by simp
  have sw: "mset (swap (Suc i) j xs) = mset xs"
    unfolding swap_def using mset_swap[OF jlen len] by simp
  have "i < length (swap (Suc i) j xs) \<or> i = 0"
    using len by (simp add: swap_def)
  from Suc.IH[OF this] sw show ?case
    by (simp add: j_def Let_def)
qed

lemma NAVIGATE_clamps_to_all_cards:
  "currentCardIndex (cardReducer env state (NAVIGATE n)) =
     max 0 (min n (int (length (cards state)) - 1))"
  by (simp add: Let_def)

text \<open>
  C1. The claim: \<open>NAVIGATE\<close> clamps the target into \<open>[0, length - 1]\<close> of the
  filtered view. The reducer bounds the target by \<open>state.cards.length - 1\<close>, the
  unfiltered list (lemma \<open>NAVIGATE_clamps_to_all_cards\<close>). With one mastered and one
  unmastered card under the filter \<open>needsReview\<close> the view has one card, and
  \<open>NAVIGATE 1\<close> leaves the cursor at 1, outside the view, where the claim gives 0.
\<close>

theorem NAVIGATE_ignores_filter:
  "currentCardIndex
     (cardReducer env0 \<lparr>cards = [cardA, cardB], filter_f = NeedsReview, currentCardIndex = 0\<rparr>
        (NAVIGATE 1)) = 1
   \<and> length (getVisibleCards
        (cardReducer env0 \<lparr>cards = [cardA, cardB], filter_f = NeedsReview, currentCardIndex = 0\<rparr>
           (NAVIGATE 1))) = 1
   \<and> getCurrentCard
        (cardReducer env0 \<lparr>cards = [cardA, cardB], filter_f = NeedsReview, currentCardIndex = 0\<rparr>
           (NAVIGATE 1)) = None"
  by (simp add: getVisibleCards_def getCurrentCard_def cardA_def cardB_def truthy_def)

text \<open>
  C2. The claim: every state reachable from the initial state satisfies the cursor
  invariant \<open>0 \<le> currentCardIndex < max(1, visibleCards.length)\<close>. Two cards are
  added, the filter is set to \<open>needsReview\<close>, the cursor moves to the second card and
  that card is marked as mastered: the view shrinks to one card while the cursor stays
  at 1, so the invariant fails and there is no current card.
\<close>

theorem cursorInvariant_broken_by_toggle:
  "\<not> cursorInvariant
       (dispatchAll initialState
          [(env0\<lparr>randomUUID := ''b''\<rparr>, ADD_CARD (CardPayload.truncate cardB)),
           (env0\<lparr>randomUUID := ''c''\<rparr>, ADD_CARD (CardPayload.truncate cardC)),
           (env0, SET_FILTER NeedsReview),
           (env0, NAVIGATE 1),
           (env0, TOGGLE_MASTERED ''c'')])
   \<and> getCurrentCard
       (dispatchAll initialState
          [(env0\<lparr>randomUUID := ''b''\<rparr>, ADD_CARD (CardPayload.truncate cardB)),
           (env0\<lparr>randomUUID := ''c''\<rparr>, ADD_CARD (CardPayload.truncate cardC)),
           (env0, SET_FILTER NeedsReview),
           (env0, NAVIGATE 1),
           (env0, TOGGLE_MASTERED ''c'')]) = None"
  by (simp add: cursorInvariant_def initialState_def getVisibleCards_def getCurrentCard_def
      newCard_def CardPayload.truncate_def cardB_def cardC_def truthy_def env0_def)

text \<open>
  C3, as stated: \<open>ADD_CARD\<close> appends one card and that card's \<open>mastered\<close> flag is
  \<open>false\<close> when the payload omits \<open>mastered\<close>. The reducer has no default: a payload
  without \<open>mastered\<close> gives a card without it (\<open>undefined\<close>, not \<open>false\<close>).
\<close>

theorem ADD_CARD_omitted_mastered_counterexample:
  "mastered (last (cards (cardReducer env0 initialState
      (ADD_CARD \<lparr>term_f = ''apple'', definition_f = ''fruit'', mastered = None,
                 partOfSpeech = None, exampleSentences = None\<rparr>)))) \<noteq> Some False"
  by (simp add: initialState_def newCard_def)

text \<open>
  C3, amended: for every state and every payload, \<open>ADD_CARD\<close> leaves the filter, the
  cursor and all existing cards as they are and appends exactly one card, which
  carries the payload's fields as given (\<open>mastered\<close> included: it is whatever the
  payload supplies), the generated id and the creation time.
\<close>

theorem ADD_CARD_appends:
  "cardReducer env state (ADD_CARD payload) =
     state\<lparr>cards := cards state @
       [\<lparr>term_f = term_f payload, definition_f = definition_f payload,
         mastered = mastered payload, partOfSpeech = partOfSpeech payload,
         exampleSentences = exampleSentences payload,
         id_f = randomUUID env, createdAt = toISOString env\<rparr>]\<rparr>"
  by (simp add: newCard_def)

text \<open>
  C4. For every state, id and update object, \<open>UPDATE_CARD\<close> keeps the filter, the
  cursor and the number of cards; a card with another id is unchanged; a card with
  the given id keeps \<open>id\<close>, \<open>createdAt\<close> and \<open>mastered\<close> and takes exactly the
  fields present in the update, keeping the others; when no card has the id the state
  is unchanged.
\<close>

theorem UPDATE_CARD_merges:
  "(let state' = cardReducer env state (UPDATE_CARD ident updates) in
      filter_f state' = filter_f state \<and>
      currentCardIndex state' = currentCardIndex state \<and>
      length (cards state') = length (cards state) \<and>
      (\<forall>k < length (cards state).
         let c = cards state ! k; c' = cards state' ! k in
           (id_f c \<noteq> ident \<longrightarrow> c' = c) \<and>
           (id_f c = ident \<longrightarrow>
              id_f c' = id_f c \<and> createdAt c' = createdAt c \<and> mastered c' = mastered c \<and>
              term_f c' = (case upd_term updates of None \<Rightarrow> term_f c | Some t \<Rightarrow> t) \<and>
              definition_f c' =
                (case upd_definition updates of None \<Rightarrow> definition_f c | Some d \<Rightarrow> d) \<and>
              partOfSpeech c' =
                (case upd_partOfSpeech updates of None \<Rightarrow> partOfSpeech c | Some p \<Rightarrow> p) \<and>
              exampleSentences c' =
                (case upd_exampleSentences updates of None \<Rightarrow> exampleSentences c | Some e \<Rightarrow> e))) \<and>
      (ident \<notin> id_f ` set (cards state) \<longrightarrow> state' = state))"
proof -
  have noop: "ident \<notin> id_f ` set xs \<Longrightarrow>
      map (\<lambda>c. if id_f c = ident then mergeUpdates c updates else c) xs = xs" for xs
    by (induction xs) auto
  show ?thesis
    by (auto simp: Let_def mergeUpdates_def noop)
qed

theorem UPDATE_CARD_merges_witness:
  "cards (cardReducer env0 \<lparr>cards = [cardA, cardB], filter_f = All, currentCardIndex = 1\<rparr>
            (UPDATE_CARD ''b'' updates0)) ! 1
     = cardB\<lparr>term_f := ''bike'', exampleSentences := None\<rparr>
   \<and> cardReducer env0 \<lparr>cards = [cardA, cardB], filter_f = All, currentCardIndex = 1\<rparr>
            (UPDATE_CARD ''zzz'' updates0)
     = \<lparr>cards = [cardA, cardB], filter_f = All, currentCardIndex = 1\<rparr>"
  using UPDATE_CARD_merges [of env0 "\<lparr>cards = [cardA, cardB], filter_f = All, currentCardIndex = 1\<rparr>" "''b''" updates0]
    UPDATE_CARD_merges [of env0 "\<lparr>cards = [cardA, cardB], filter_f = All, currentCardIndex = 1\<rparr>" "''zzz''" updates0]
  by (simp add: cardA_def cardB_def updates0_def mergeUpdates_def)

text \<open>
  C5. For every state and every outcome of the random choices (each value of
  \<open>Math.random()\<close> lies in \<open>[0, 1)\<close>), after \<open>SHUFFLE_CARDS\<close> the card list is a
  permutation of the list before (the same multiset of whole card records), the
  cursor is 0 and the filter is unchanged.
\<close>

theorem SHUFFLE_CARDS_permutes:
  assumes "\<forall>k. 0 \<le> random env k \<and> random env k < 1"
  shows "mset (cards (cardReducer env state SHUFFLE_CARDS)) = mset (cards state)
       \<and> currentCardIndex (cardReducer env state SHUFFLE_CARDS) = 0
       \<and> filter_f (cardReducer env state SHUFFLE_CARDS) = filter_f state"
proof -
  have "length (cards state) - 1 < length (cards state) \<or> length (cards state) - 1 = 0"
    by (cases "cards state") auto
  then have "mset (shuffleLoop (random env) 0 (length (cards state) - 1) (cards state))
               = mset (cards state)"
    using assms by (intro shuffleLoop_mset) auto
  then show ?thesis by (simp add: Let_def)
qed

theorem SHUFFLE_CARDS_permutes_witness:
  "(\<forall>k. 0 \<le> random env0 k \<and> random env0 k < 1)
   \<and> cards (cardReducer env0 \<lparr>cards = [cardA, cardB, cardC], filter_f = All, currentCardIndex = 2\<rparr>
        SHUFFLE_CARDS) = [cardA, cardC, cardB]
   \<and> mset [cardA, cardC, cardB] = mset [cardA, cardB, cardC]
   \<and> currentCardIndex (cardReducer env0
        \<lparr>cards = [cardA, cardB, cardC], filter_f = All, currentCardIndex = 2\<rparr> SHUFFLE_CARDS) = 0"
proof -
  have h: "\<forall>k. 0 \<le> random env0 k \<and> random env0 k < 1" by (simp add: env0_def)
  have e: "cards (cardReducer env0 \<lparr>cards = [cardA, cardB, cardC], filter_f = All, currentCardIndex = 2\<rparr>
        SHUFFLE_CARDS) = [cardA, cardC, cardB]"
    by (simp add: env0_def swap_def numeral_2_eq_2)
  show ?thesis
    using h e SHUFFLE_CARDS_permutes [OF h, of "\<lparr>cards = [cardA, cardB, cardC], filter_f = All, currentCardIndex = 2\<rparr>"]
    by simp
qed

text \<open>
  C10. For every state, \<open>getCurrentCard\<close> returns \<open>null\<close> whenever the cursor is at or
  beyond the length of the visible view (whether or not the view is empty), and the
  card at the cursor's position of the visible view when the cursor is inside it. A
  negative cursor, which the reducer never produces, reads \<open>undefined\<close> and gives
  \<open>null\<close> as well. The function has no failing branch.
\<close>

theorem getCurrentCard_bounds:
  "(currentCardIndex state \<ge> int (length (getVisibleCards state)) \<longrightarrow> getCurrentCard state = None)
   \<and> (currentCardIndex state < 0 \<longrightarrow> getCurrentCard state = None)
   \<and> (0 \<le> currentCardIndex state \<and> currentCardIndex state < int (length (getVisibleCards state))
        \<longrightarrow> getCurrentCard state = Some (getVisibleCards state ! nat (currentCardIndex state)))"
  by (simp add: getCurrentCard_def Let_def)

theorem getCurrentCard_bounds_witness:
  "getCurrentCard \<lparr>cards = [cardA, cardB, cardC], filter_f = NeedsReview, currentCardIndex = 2\<rparr> = None
   \<and> getCurrentCard \<lparr>cards = [cardA, cardB, cardC], filter_f = NeedsReview, currentCardIndex = 1\<rparr> = Some cardC
   \<and> getCurrentCard \<lparr>cards = [cardA, cardB, cardC], filter_f = NeedsReview, currentCardIndex = -1\<rparr> = None"
  using getCurrentCard_bounds [of "\<lparr>cards = [cardA, cardB, cardC], filter_f = NeedsReview, currentCardIndex = 2\<rparr>"]
    getCurrentCard_bounds [of "\<lparr>cards = [cardA, cardB, cardC], filter_f = NeedsReview, currentCardIndex = 1\<rparr>"]
    getCurrentCard_bounds [of "\<lparr>cards = [cardA, cardB, cardC], filter_f = NeedsReview, currentCardIndex = -1\<rparr>"]
  by (simp add: getVisibleCards_def cardA_def cardB_def cardC_def truthy_def)

section \<open>Properties of the string functions and the parser\<close>

lemma split_not_Nil [simp]: "split sep s \<noteq> []"
  by (induction s) (auto split: list.splits)

lemma length_split: "length (split sep s) = Suc (count_list s sep)"
  by (induction s) (auto split: list.splits)

lemma split_pieces_free: "piece \<in> set (split sep s) \<Longrightarrow> sep \<notin> set piece"
  by (induction s arbitrary: piece) (auto split: list.splits if_splits)

lemma split_without_sep: "sep \<notin> set s \<Longrightarrow> split sep s = [s]"
  by (induction s) auto

lemma split_append_sep:
  "sep \<notin> set l \<Longrightarrow> split sep (l @ sep # rest) = l # split sep rest"
  by (induction l) auto

lemma split_join:
  "ls \<noteq> [] \<Longrightarrow> \<forall>l \<in> set ls. sep \<notin> set l \<Longrightarrow> split sep (join [sep] ls) = ls"
proof (induction "[sep]" ls rule: join.induct)
  case 1
  then show ?case by simp
next
  case (2 piece)
  then show ?case by (simp add: split_without_sep)
next
  case (3 piece v va)
  then show ?case by (simp add: split_append_sep)
qed

lemma set_join_piece: "l \<in> set ls \<Longrightarrow> set l \<subseteq> set (join sep ls)"
  by (induction sep ls rule: join.induct) auto

lemma sep_in_join: "2 \<le> length ls \<Longrightarrow> sep \<in> set (join [sep] ls)"
  by (induction "[sep]" ls rule: join.induct) auto

lemma set_trim: "set (trim s) \<subseteq> set s"
  unfolding trim_def by (metis set_dropWhileD set_rev subsetI)

lemma trim_eq_Nil: "trim s = [] \<longleftrightarrow> (\<forall>ch \<in> set s. isWhitespace ch)"
proof -
  have "(\<forall>ch \<in> set (dropWhile isWhitespace s). isWhitespace ch) \<longleftrightarrow> dropWhile isWhitespace s = []"
  proof
    assume a: "\<forall>ch \<in> set (dropWhile isWhitespace s). isWhitespace ch"
    show "dropWhile isWhitespace s = []"
    proof (rule ccontr)
      assume n: "dropWhile isWhitespace s \<noteq> []"
      then have "\<not> isWhitespace (hd (dropWhile isWhitespace s))" by (rule hd_dropWhile)
      moreover have "hd (dropWhile isWhitespace s) \<in> set (dropWhile isWhitespace s)"
        using n by (rule hd_in_set)
      ultimately show False using a by blast
    qed
  next
    assume e: "dropWhile isWhitespace s = []"
    show "\<forall>ch \<in> set (dropWhile isWhitespace s). isWhitespace ch"
      unfolding e by simp
  qed
  moreover have "dropWhile isWhitespace s = [] \<longleftrightarrow> (\<forall>ch \<in> set s. isWhitespace ch)"
    by (rule dropWhile_eq_Nil_conv)
  moreover have "trim s = [] \<longleftrightarrow> (\<forall>ch \<in> set (dropWhile isWhitespace s). isWhitespace ch)"
    unfolding trim_def by (simp only: rev_is_Nil_conv dropWhile_eq_Nil_conv set_rev)
  ultimately show ?thesis by blast
qed

lemma importedCards_length [simp]: "length (importedCards env k ps) = length ps"
  by (induction ps arbitrary: k) auto

lemma importedCards_nth:
  "i < length ps \<Longrightarrow> importedCards env k ps ! i = importedCard env (k + i) (ps ! i)"
proof (induction ps arbitrary: k i)
  case Nil
  then show ?case by simp
next
  case (Cons p ps)
  then show ?case by (cases i) auto
qed

lemma importedCards_append:
  "importedCards env k (ps @ qs) = importedCards env k ps @ importedCards env (k + length ps) qs"
  by (induction ps arbitrary: k) auto

lemma goodPayloads_Cons:
  "goodPayloads (e # es) =
     (if trim e = [] then [] else (case parseEntry (trim e) of Inr p \<Rightarrow> [p] | Inl _ \<Rightarrow> []))
     @ goodPayloads es"
  by (simp add: goodPayloads_def)

lemma badEntries_Cons:
  "badEntries (e # es) =
     (if trim e = [] then []
      else (case parseEntry (trim e) of Inl m \<Rightarrow> [\<lparr>rawText = trim e, error = m\<rparr>] | Inr _ \<Rightarrow> []))
     @ badEntries es"
  by (simp add: badEntries_def)

lemma foldl_processEntry:
  "foldl (processEntry env) result entries =
     \<lparr>successful = successful result @
         importedCards env (length (successful result)) (goodPayloads entries),
      failed = failed result @ badEntries entries\<rparr>"
proof (induction entries arbitrary: result)
  case Nil
  then show ?case by (simp add: goodPayloads_def badEntries_def)
next
  case (Cons e es)
  have step: "processEntry env result e =
      \<lparr>successful = successful result @
         importedCards env (length (successful result)) (goodPayloads [e]),
       failed = failed result @ badEntries [e]\<rparr>"
    by (simp add: processEntry_def Let_def goodPayloads_def badEntries_def split: sum.splits)
  have "foldl (processEntry env) result (e # es) =
        foldl (processEntry env) (processEntry env result e) es"
    by simp
  also have "\<dots> = \<lparr>successful = successful (processEntry env result e) @
         importedCards env (length (successful (processEntry env result e))) (goodPayloads es),
       failed = failed (processEntry env result e) @ badEntries es\<rparr>"
    by (rule Cons.IH)
  also have "\<dots> = \<lparr>successful = successful result @
         importedCards env (length (successful result)) (goodPayloads (e # es)),
       failed = failed result @ badEntries (e # es)\<rparr>"
    unfolding step
    by (simp add: goodPayloads_def badEntries_def importedCards_append)
  finally show ?case .
qed

lemma goodPayloads_append: "goodPayloads (xs @ ys) = goodPayloads xs @ goodPayloads ys"
  by (simp add: goodPayloads_def)

lemma badEntries_append: "badEntries (xs @ ys) = badEntries xs @ badEntries ys"
  by (simp add: badEntries_def)

lemma all_wellformed:
  assumes "\<forall>l \<in> set xs. trim l \<noteq> [] \<and> (\<exists>p. parseEntry (trim l) = Inr p)"
  shows "goodPayloads xs = map (\<lambda>l. projr (parseEntry (trim l))) xs \<and> badEntries xs = []"
  using assms
proof (induction xs)
  case Nil
  then show ?case by (simp add: goodPayloads_def badEntries_def)
next
  case (Cons x xs)
  then show ?case by (auto simp: goodPayloads_Cons badEntries_Cons)
qed

lemma parseEntry_fields:
  assumes "parseEntry entry = Inr p"
  shows "2 \<le> length (split CHR '','' entry)
       \<and> term_f p = trim (split CHR '','' entry ! 0)
       \<and> definition_f p = trim (split CHR '','' entry ! 1)
       \<and> mastered p = Some False
       \<and> (length (split CHR '','' entry) = 2 \<longrightarrow> partOfSpeech p = None \<and> exampleSentences p = None)
       \<and> (length (split CHR '','' entry) = 3 \<longrightarrow>
            partOfSpeech p = (if trim (split CHR '','' entry ! 2) = [] then None
                              else Some (trim (split CHR '','' entry ! 2)))
            \<and> exampleSentences p = None)"
  using assms
  by (auto simp: parseEntry_def Let_def split: if_splits option.splits)

lemma trimmed_piece_free:
  assumes "i < length (split sep s)"
  shows "sep \<notin> set (trim (split sep s ! i))"
proof -
  have "split sep s ! i \<in> set (split sep s)" using assms by simp
  then have "sep \<notin> set (split sep s ! i)" by (rule split_pieces_free)
  then show ?thesis using set_trim by blast
qed

lemma split_three:
  assumes "sep \<notin> set a" "sep \<notin> set b" "sep \<notin> set c"
  shows "split sep (a @ sep # b @ sep # c) = [a, b, c]"
  using assms by (simp add: split_append_sep split_without_sep)

lemma split_takeWhile:
  "split sep s =
     takeWhile (\<lambda>ch. ch \<noteq> sep) s #
       (if sep \<in> set s then split sep (drop 1 (dropWhile (\<lambda>ch. ch \<noteq> sep) s)) else [])"
proof (induction s)
  case Nil
  show ?case by simp
next
  case (Cons ch s)
  show ?case
  proof (cases "ch = sep")
    case True
    then show ?thesis by simp
  next
    case False
    then show ?thesis by (subst split.simps) (simp add: Cons.IH)
  qed
qed

lemma parseEntry_Inr:
  assumes "parseEntry entry = Inr p"
  shows "p = \<lparr>term_f = trim (split CHR '','' entry ! 0),
              definition_f = trim (split CHR '','' entry ! 1),
              mastered = Some False,
              partOfSpeech =
                (if 3 \<le> length (split CHR '','' entry) \<and> trim (split CHR '','' entry ! 2) \<noteq> []
                 then Some (trim (split CHR '','' entry ! 2)) else None),
              exampleSentences =
                (if 4 \<le> length (split CHR '','' entry) \<and>
                    filter (\<lambda>ex. length ex > 0)
                      (map trim (split CHR ''|''
                         (trim (join '','' (drop 3 (map trim (split CHR '','' entry))))))) \<noteq> []
                 then Some (filter (\<lambda>ex. length ex > 0)
                      (map trim (split CHR ''|''
                         (trim (join '','' (drop 3 (map trim (split CHR '','' entry))))))))
                 else None)\<rparr>"
proof -
  define parts where "parts = map trim (split CHR '','' entry)"
  define examples where "examples =
     (case (if length parts \<ge> 4 then Some (trim (join '','' (drop 3 parts))) else None) of
        None \<Rightarrow> []
      | Some raw \<Rightarrow> filter (\<lambda>ex. length ex > 0) (map trim (split CHR ''|'' raw)))"
  define pos where "pos = (if length parts \<ge> 3 then Some (parts ! 2) else None)"
  have unfold: "parseEntry entry =
     (if length parts < 2 then
        Inl ''Missing comma separator. Expected format: \"vocabulary, meaning[, partOfSpeech[, examples]]\"''
      else
        if parts ! 0 = [] then Inl ''Vocabulary cannot be empty''
        else if length (parts ! 0) > MAX_VOCABULARY_LENGTH then
          Inl (''Vocabulary exceeds '' @ toString MAX_VOCABULARY_LENGTH @ '' characters ('' @
               toString (length (parts ! 0)) @ '' chars)'')
        else if parts ! 1 = [] then Inl ''Meaning cannot be empty''
        else if length (parts ! 1) > MAX_MEANING_LENGTH then
          Inl (''Meaning exceeds '' @ toString MAX_MEANING_LENGTH @ '' characters ('' @
               toString (length (parts ! 1)) @ '' chars)'')
        else if (case pos of None \<Rightarrow> False
                 | Some p \<Rightarrow> length p > 0 \<and> length p > PART_OF_SPEECH_MAX_LENGTH) then
          Inl (''Part of speech exceeds '' @ toString PART_OF_SPEECH_MAX_LENGTH @ '' characters ('' @
               toString (length (the pos)) @ '' chars)'')
        else
          if length examples > MAX_EXAMPLE_SENTENCES then
            Inl (''Too many examples ('' @ toString (length examples) @ ''). Maximum is '' @
                 toString MAX_EXAMPLE_SENTENCES)
          else
            (case firstTooLong examples of
               Some n \<Rightarrow>
                 Inl (''Example sentence exceeds '' @ toString EXAMPLE_SENTENCE_MAX_LENGTH @
                      '' characters ('' @ toString n @ '' chars)'')
             | None \<Rightarrow>
                 Inr \<lparr>term_f = parts ! 0, definition_f = parts ! 1, mastered = Some False,
                      partOfSpeech =
                        (case pos of None \<Rightarrow> None
                         | Some p \<Rightarrow> if length p > 0 then Some p else None),
                      exampleSentences = (if length examples > 0 then Some examples else None)\<rparr>))"
    unfolding parseEntry_def Let_def parts_def examples_def pos_def ..
  have p: "p = \<lparr>term_f = parts ! 0, definition_f = parts ! 1, mastered = Some False,
                partOfSpeech =
                  (case pos of None \<Rightarrow> None | Some p \<Rightarrow> if length p > 0 then Some p else None),
                exampleSentences = (if length examples > 0 then Some examples else None)\<rparr>"
    and len: "\<not> length parts < 2"
    using assms unfolding unfold by (simp_all split: if_splits option.splits)
  have l: "length parts = length (split CHR '','' entry)" by (simp add: parts_def)
  have n0: "parts ! 0 = trim (split CHR '','' entry ! 0)"
    using len unfolding parts_def by simp
  have n1: "parts ! 1 = trim (split CHR '','' entry ! 1)"
    using len unfolding parts_def by simp
  have n2: "3 \<le> length parts \<Longrightarrow> parts ! 2 = trim (split CHR '','' entry ! 2)"
    unfolding parts_def by simp
  have pos': "(case pos of None \<Rightarrow> None | Some p \<Rightarrow> if length p > 0 then Some p else None) =
      (if 3 \<le> length (split CHR '','' entry) \<and> trim (split CHR '','' entry ! 2) \<noteq> []
       then Some (trim (split CHR '','' entry ! 2)) else None)"
    unfolding pos_def using n2 l by simp
  have ex': "(if length examples > 0 then Some examples else None) =
      (if 4 \<le> length (split CHR '','' entry) \<and>
                    filter (\<lambda>ex. length ex > 0)
                      (map trim (split CHR ''|''
                         (trim (join '','' (drop 3 (map trim (split CHR '','' entry))))))) \<noteq> []
                 then Some (filter (\<lambda>ex. length ex > 0)
                      (map trim (split CHR ''|''
                         (trim (join '','' (drop 3 (map trim (split CHR '','' entry))))))))
                 else None)"
    unfolding examples_def l unfolding parts_def
    by (cases "4 \<le> length (split CHR '','' entry)") (simp_all only: if_True if_False option.case length_greater_0_conv simp_thms)
  show ?thesis unfolding p pos' ex' n0 n1 ..
qed

lemma goodPayloads_from_entry:
  "p \<in> set (goodPayloads entries) \<Longrightarrow> \<exists>e \<in> set entries. parseEntry (trim e) = Inr p"
  by (induction entries) (auto simp: goodPayloads_Cons goodPayloads_def split: if_splits sum.splits)

lemma importedCards_payload:
  "c \<in> set (importedCards env k ps) \<Longrightarrow> CardPayload.truncate c \<in> set ps"
  by (induction ps arbitrary: k) (auto simp: importedCard_def CardPayload.truncate_def)

text \<open>
  C6, amended: an entry that parses has a comma; its term is the trimmed text before
  the first comma and its definition is the trimmed text between the first and the
  second comma, or up to the end of the entry when there is one comma only, so the term
  and the definition of a parsed card never contain a comma. When there is a second
  comma, the trimmed text between it and the third comma (or the end) becomes the part
  of speech, left out when blank, and is not part of the definition; in particular an
  entry with exactly two commas has the text after the second comma as its part of
  speech and no examples. Only the text after a third comma, the examples, keeps its
  commas: the fields after the third comma are trimmed, joined by commas again and
  split on \<open>|\<close>. Every card in \<open>successful\<close> carries the fields of one entry of the
  text.
\<close>

theorem entry_fields_by_commas:
  "(\<forall>entry p. parseEntry entry = Inr p \<longrightarrow>
      (let notComma = (\<lambda>ch. ch \<noteq> CHR '','');
           afterFirst = drop 1 (dropWhile notComma entry);
           afterSecond = drop 1 (dropWhile notComma afterFirst);
           afterThird = drop 1 (dropWhile notComma afterSecond);
           third = trim (takeWhile notComma afterSecond);
           examples = filter (\<lambda>ex. length ex > 0)
             (map trim (split CHR ''|'' (trim (join '','' (map trim (split CHR '','' afterThird))))))
       in CHR '','' \<in> set entry
        \<and> term_f p = trim (takeWhile notComma entry)
        \<and> definition_f p = trim (takeWhile notComma afterFirst)
        \<and> partOfSpeech p =
            (if CHR '','' \<in> set afterFirst \<and> third \<noteq> [] then Some third else None)
        \<and> exampleSentences p =
            (if CHR '','' \<in> set afterFirst \<and> CHR '','' \<in> set afterSecond \<and> examples \<noteq> []
             then Some examples else None)))
   \<and> (\<forall>a b p. CHR '','' \<notin> set a \<and> CHR '','' \<notin> set b \<and> parseEntry (a @ '','' @ b) = Inr p
        \<longrightarrow> term_f p = trim a \<and> definition_f p = trim b
            \<and> partOfSpeech p = None \<and> exampleSentences p = None)
   \<and> (\<forall>a b c p. CHR '','' \<notin> set a \<and> CHR '','' \<notin> set b \<and> CHR '','' \<notin> set c
          \<and> parseEntry (a @ '','' @ b @ '','' @ c) = Inr p
        \<longrightarrow> term_f p = trim a \<and> definition_f p = trim b
            \<and> partOfSpeech p = (if trim c = [] then None else Some (trim c))
            \<and> exampleSentences p = None)
   \<and> (\<forall>c \<in> set (successful (parseBulkImportText env raw)).
        CHR '','' \<notin> set (term_f c) \<and> CHR '','' \<notin> set (definition_f c)
        \<and> (\<exists>entry \<in> set (if CHR 0x0A \<in> set raw then split (CHR 0x0A) raw else split CHR '';'' raw).
              parseEntry (trim entry) = Inr (CardPayload.truncate c)))"
proof -
  have general:
    "(let notComma = (\<lambda>ch. ch \<noteq> CHR '','');
           afterFirst = drop 1 (dropWhile notComma entry);
           afterSecond = drop 1 (dropWhile notComma afterFirst);
           afterThird = drop 1 (dropWhile notComma afterSecond);
           third = trim (takeWhile notComma afterSecond);
           examples = filter (\<lambda>ex. length ex > 0)
             (map trim (split CHR ''|'' (trim (join '','' (map trim (split CHR '','' afterThird))))))
       in CHR '','' \<in> set entry
        \<and> term_f p = trim (takeWhile notComma entry)
        \<and> definition_f p = trim (takeWhile notComma afterFirst)
        \<and> partOfSpeech p =
            (if CHR '','' \<in> set afterFirst \<and> third \<noteq> [] then Some third else None)
        \<and> exampleSentences p =
            (if CHR '','' \<in> set afterFirst \<and> CHR '','' \<in> set afterSecond \<and> examples \<noteq> []
             then Some examples else None))"
    if pe: "parseEntry entry = Inr p" for entry p
  proof -
    define nc where "nc = (\<lambda>ch. ch \<noteq> CHR '','')"
    define s1 where "s1 = drop 1 (dropWhile nc entry)"
    define s2 where "s2 = drop 1 (dropWhile nc s1)"
    define s3 where "s3 = drop 1 (dropWhile nc s2)"
    define parts where "parts = split CHR '','' entry"
    have sp0: "parts = takeWhile nc entry # (if CHR '','' \<in> set entry then split CHR '','' s1 else [])"
      unfolding parts_def nc_def s1_def by (rule split_takeWhile)
    have sp1: "split CHR '','' s1 =
        takeWhile nc s1 # (if CHR '','' \<in> set s1 then split CHR '','' s2 else [])"
      unfolding nc_def s2_def by (rule split_takeWhile)
    have sp2: "split CHR '','' s2 =
        takeWhile nc s2 # (if CHR '','' \<in> set s2 then split CHR '','' s3 else [])"
      unfolding nc_def s3_def by (rule split_takeWhile)
    from parseEntry_fields[OF pe] have len: "2 \<le> length parts" unfolding parts_def by blast
    have c0: "CHR '','' \<in> set entry"
    proof (rule ccontr)
      assume "CHR '','' \<notin> set entry"
      then have "length parts = 1" unfolding sp0 by simp
      with len show False by simp
    qed
    have parts: "parts =
        takeWhile nc entry # takeWhile nc s1 #
          (if CHR '','' \<in> set s1
           then takeWhile nc s2 # (if CHR '','' \<in> set s2 then split CHR '','' s3 else [])
           else [])"
      using c0 sp0 sp1 sp2 by simp
    have l3: "3 \<le> length parts \<longleftrightarrow> CHR '','' \<in> set s1"
      unfolding parts by simp
    have l4: "4 \<le> length parts \<longleftrightarrow> CHR '','' \<in> set s1 \<and> CHR '','' \<in> set s2"
      unfolding parts by (auto simp: Suc_le_eq)
    have n0: "parts ! 0 = takeWhile nc entry" unfolding parts by simp
    have n1: "parts ! Suc 0 = takeWhile nc s1" unfolding parts by simp
    have n2: "CHR '','' \<in> set s1 \<Longrightarrow> parts ! 2 = takeWhile nc s2"
      unfolding parts by simp
    have d3: "CHR '','' \<in> set s1 \<and> CHR '','' \<in> set s2 \<Longrightarrow>
        drop 3 (map trim parts) = map trim (split CHR '','' s3)"
      unfolding parts by simp
    note r = parseEntry_Inr[OF pe, folded parts_def]
    have tt: "term_f p = trim (takeWhile nc entry)" by (subst r) (simp add: n0)
    have dd: "definition_f p = trim (takeWhile nc s1)" by (subst r) (simp add: n1)
    have pp: "partOfSpeech p =
        (if CHR '','' \<in> set s1 \<and> trim (takeWhile nc s2) \<noteq> [] then Some (trim (takeWhile nc s2))
         else None)"
    proof (cases "CHR '','' \<in> set s1")
      case True
      then have "parts ! 2 = takeWhile nc s2" by (rule n2)
      with True show ?thesis by (subst r) (simp add: l3)
    next
      case False
      then show ?thesis by (subst r) (simp add: l3)
    qed
    have ee: "exampleSentences p =
        (if CHR '','' \<in> set s1 \<and> CHR '','' \<in> set s2 \<and>
            filter (\<lambda>ex. length ex > 0)
              (map trim (split CHR ''|'' (trim (join '','' (map trim (split CHR '','' s3)))))) \<noteq> []
         then Some (filter (\<lambda>ex. length ex > 0)
              (map trim (split CHR ''|'' (trim (join '','' (map trim (split CHR '','' s3)))))))
         else None)"
    proof (cases "CHR '','' \<in> set s1 \<and> CHR '','' \<in> set s2")
      case True
      then have "4 \<le> length parts" using l4 by blast
      then show ?thesis by (subst r) (simp only: d3[OF True] True if_True simp_thms CardPayload.simps)
    next
      case False
      then have "\<not> 4 \<le> length parts" using l4 by blast
      moreover have "\<not> (CHR '','' \<in> set s1 \<and> CHR '','' \<in> set s2 \<and>
            filter (\<lambda>ex. length ex > 0)
              (map trim (split CHR ''|'' (trim (join '','' (map trim (split CHR '','' s3)))))) \<noteq> [])"
        using False by blast
      ultimately show ?thesis by (subst r) (simp only: if_False simp_thms CardPayload.simps)
    qed
    show ?thesis
      unfolding Let_def using c0 tt dd pp ee unfolding s3_def s2_def s1_def nc_def by blast
  qed
  have one: "term_f p = trim a \<and> definition_f p = trim b
            \<and> partOfSpeech p = None \<and> exampleSentences p = None"
    if h: "CHR '','' \<notin> set a \<and> CHR '','' \<notin> set b \<and> parseEntry (a @ '','' @ b) = Inr p" for a b p
  proof -
    from h have sp: "split CHR '','' (a @ '','' @ b) = [a, b]"
      by (simp add: split_append_sep split_without_sep)
    from h have pe: "parseEntry (a @ '','' @ b) = Inr p" by blast
    from parseEntry_fields[OF pe] show ?thesis unfolding sp by simp
  qed
  have two: "term_f p = trim a \<and> definition_f p = trim b
            \<and> partOfSpeech p = (if trim c = [] then None else Some (trim c))
            \<and> exampleSentences p = None"
    if h: "CHR '','' \<notin> set a \<and> CHR '','' \<notin> set b \<and> CHR '','' \<notin> set c
          \<and> parseEntry (a @ '','' @ b @ '','' @ c) = Inr p" for a b c p
  proof -
    from h have sp: "split CHR '','' (a @ '','' @ b @ '','' @ c) = [a, b, c]"
      using split_three[of "CHR '',''" a b c] by simp
    from h have pe: "parseEntry (a @ '','' @ b @ '','' @ c) = Inr p" by blast
    from parseEntry_fields[OF pe] show ?thesis unfolding sp by simp
  qed
  have whole: "CHR '','' \<notin> set (term_f c) \<and> CHR '','' \<notin> set (definition_f c)
        \<and> (\<exists>entry \<in> set (if CHR 0x0A \<in> set raw then split (CHR 0x0A) raw else split CHR '';'' raw).
              parseEntry (trim entry) = Inr (CardPayload.truncate c))"
    if c: "c \<in> set (successful (parseBulkImportText env raw))" for c
  proof -
    define entries where
      "entries = (if CHR 0x0A \<in> set raw then split (CHR 0x0A) raw else split CHR '';'' raw)"
    from c have "c \<in> set (successful (foldl (processEntry env) \<lparr>successful = [], failed = []\<rparr> entries))"
      unfolding entries_def by (auto simp: parseBulkImportText_def Let_def split: if_splits)
    then have "c \<in> set (importedCards env 0 (goodPayloads entries))"
      by (simp add: foldl_processEntry)
    then have "CardPayload.truncate c \<in> set (goodPayloads entries)"
      by (rule importedCards_payload)
    then obtain e where e: "e \<in> set entries" "parseEntry (trim e) = Inr (CardPayload.truncate c)"
      using goodPayloads_from_entry by blast
    from parseEntry_fields[OF e(2)] have len: "2 \<le> length (split CHR '','' (trim e))"
      and t: "term_f c = trim (split CHR '','' (trim e) ! 0)"
      and d: "definition_f c = trim (split CHR '','' (trim e) ! 1)"
      by (simp_all add: CardPayload.truncate_def)
    have "CHR '','' \<notin> set (term_f c)"
      unfolding t using len by (intro trimmed_piece_free) simp
    moreover have "CHR '','' \<notin> set (definition_f c)"
      unfolding d using len by (intro trimmed_piece_free) simp
    ultimately show ?thesis using e unfolding entries_def by blast
  qed
  show ?thesis
    using general one two whole by blast
qed

text \<open>
  C7, amended: take a text made of lines (joined by line breaks) of which exactly one
  fails validation and the other \<open>N\<close> pass it, in any order, and which either has a
  line break (\<open>N \<ge> 1\<close>) or has no semicolon. Then \<open>successful\<close> has exactly \<open>N\<close>
  cards, in input order, the \<open>i\<close>-th built from the \<open>i\<close>-th valid line with
  \<open>mastered = false\<close> and the \<open>i\<close>-th generated id and creation time, and \<open>failed\<close>
  has exactly one entry, carrying the trimmed text of the failing line and its error
  message.
\<close>

theorem parse_one_malformed_line:
  assumes lines: "\<forall>l \<in> set ls. CHR 0x0A \<notin> set l"
    and k: "k < length ls"
    and bad: "trim (ls ! k) \<noteq> [] \<and> parseEntry (trim (ls ! k)) = Inl message"
    and good: "\<forall>i < length ls. i \<noteq> k \<longrightarrow>
                 trim (ls ! i) \<noteq> [] \<and> (\<exists>p. parseEntry (trim (ls ! i)) = Inr p)"
    and mode: "2 \<le> length ls \<or> CHR '';'' \<notin> set (ls ! k)"
  shows "let result = parseBulkImportText env (join [CHR 0x0A] ls);
             wellFormed = take k ls @ drop (Suc k) ls
         in length (successful result) = length ls - 1
          \<and> (\<forall>i < length wellFormed.
                successful result ! i =
                  importedCard env i (projr (parseEntry (trim (wellFormed ! i))))
                \<and> mastered (successful result ! i) = Some False
                \<and> id_f (successful result ! i) = uuidAt env i
                \<and> createdAt (successful result ! i) = isoTimeAt env i)
          \<and> failed result = [\<lparr>rawText = trim (ls ! k), error = message\<rparr>]"
proof -
  define raw where "raw = join [CHR 0x0A] ls"
  define wf where "wf = take k ls @ drop (Suc k) ls"
  have ne: "ls \<noteq> []" using k by auto
  have decomp: "ls = take k ls @ [ls ! k] @ drop (Suc k) ls"
    using k by (simp add: id_take_nth_drop)
  \<comment> \<open>the text is not blank\<close>
  from bad obtain ch where ch: "ch \<in> set (ls ! k)" "\<not> isWhitespace ch"
    by (auto simp: trim_eq_Nil)
  have "ls ! k \<in> set ls" using k by simp
  then have "ch \<in> set raw"
    unfolding raw_def using ch(1) set_join_piece by blast
  then have nonblank: "raw \<noteq> [] \<and> trim raw \<noteq> []"
    using ch(2) by (auto simp: trim_eq_Nil)
  \<comment> \<open>the entries are the lines\<close>
  have entries: "(if CHR 0x0A \<in> set raw then split (CHR 0x0A) raw else split CHR '';'' raw) = ls"
  proof (cases "2 \<le> length ls")
    case True
    then have "CHR 0x0A \<in> set raw" unfolding raw_def by (rule sep_in_join)
    moreover have "split (CHR 0x0A) raw = ls"
      unfolding raw_def using ne lines by (rule split_join)
    ultimately show ?thesis by simp
  next
    case False
    have "length ls \<noteq> 0" using ne by simp
    with False have "length ls = 1" by linarith
    then obtain l where "ls = [l]" by (cases ls) auto
    with k have l: "ls = [l]" "k = 0" by auto
    with mode False have "CHR '';'' \<notin> set l" by simp
    moreover have "CHR 0x0A \<notin> set l" using lines l by simp
    ultimately show ?thesis unfolding raw_def l by (simp add: split_without_sep)
  qed
  have result: "parseBulkImportText env raw =
      \<lparr>successful = importedCards env 0 (goodPayloads ls), failed = badEntries ls\<rparr>"
    using nonblank entries by (simp add: parseBulkImportText_def Let_def foldl_processEntry)
  \<comment> \<open>the outcome of each line\<close>
  have g1: "\<forall>l \<in> set (take k ls). trim l \<noteq> [] \<and> (\<exists>p. parseEntry (trim l) = Inr p)"
  proof
    fix l assume "l \<in> set (take k ls)"
    then obtain i where "i < length (take k ls)" "l = take k ls ! i"
      by (auto simp: in_set_conv_nth)
    then have "i < length ls" "i \<noteq> k" "l = ls ! i" using k by auto
    then show "trim l \<noteq> [] \<and> (\<exists>p. parseEntry (trim l) = Inr p)" using good by blast
  qed
  have g2: "\<forall>l \<in> set (drop (Suc k) ls). trim l \<noteq> [] \<and> (\<exists>p. parseEntry (trim l) = Inr p)"
  proof
    fix l assume "l \<in> set (drop (Suc k) ls)"
    then obtain i where "i < length (drop (Suc k) ls)" "l = drop (Suc k) ls ! i"
      by (auto simp: in_set_conv_nth)
    then have "Suc k + i < length ls" "Suc k + i \<noteq> k" "l = ls ! (Suc k + i)" using k by auto
    then show "trim l \<noteq> [] \<and> (\<exists>p. parseEntry (trim l) = Inr p)" using good by blast
  qed
  have b: "goodPayloads [ls ! k] = [] \<and>
           badEntries [ls ! k] = [\<lparr>rawText = trim (ls ! k), error = message\<rparr>]"
    using bad by (simp add: goodPayloads_def badEntries_def)
  have gp: "goodPayloads ls = map (\<lambda>l. projr (parseEntry (trim l))) wf"
    unfolding wf_def
    by (subst decomp) (simp only: goodPayloads_append all_wellformed[OF g1] all_wellformed[OF g2] b
        map_append append_Nil)
  have be: "badEntries ls = [\<lparr>rawText = trim (ls ! k), error = message\<rparr>]"
    by (subst decomp) (simp only: badEntries_append all_wellformed[OF g1] all_wellformed[OF g2] b
        append_Nil append_Nil2)
  have lenwf: "length wf = length ls - 1" unfolding wf_def using k by auto
  have wfgood: "\<forall>l \<in> set wf. \<exists>p. parseEntry (trim l) = Inr p"
    unfolding wf_def using g1 g2 by auto
  have cards: "\<forall>i < length wf.
      successful (parseBulkImportText env raw) ! i =
        importedCard env i (projr (parseEntry (trim (wf ! i))))"
    by (simp add: result gp importedCards_nth)
  have m: "\<forall>i < length wf. mastered (projr (parseEntry (trim (wf ! i)))) = Some False"
  proof (intro allI impI)
    fix i assume "i < length wf"
    then have "wf ! i \<in> set wf" by simp
    with wfgood obtain p where "parseEntry (trim (wf ! i)) = Inr p" by blast
    then show "mastered (projr (parseEntry (trim (wf ! i)))) = Some False"
      using parseEntry_fields by simp
  qed
  show ?thesis
    unfolding Let_def raw_def[symmetric] wf_def[symmetric]
    using cards m by (simp add: result gp be lenwf importedCard_def)
qed

lemmas parser_defs =
  parseBulkImportText_def processEntry_def parseEntry_def importedCard_def trim_def
  isWhitespace_def Let_def MAX_VOCABULARY_LENGTH_def MAX_MEANING_LENGTH_def
  PART_OF_SPEECH_MAX_LENGTH_def MAX_EXAMPLE_SENTENCES_def EXAMPLE_SENTENCE_MAX_LENGTH_def

text \<open>
  C6, as stated: with exactly two commas everything after the first comma becomes the
  definition. The entry \<open>run, to move quickly, verb\<close> gives the definition
  \<open>to move quickly\<close> and the part of speech \<open>verb\<close>.
\<close>

theorem two_commas_counterexample:
  "map (\<lambda>c. (term_f c, definition_f c, partOfSpeech c))
       (successful (parseBulkImportText ienv0 ''run, to move quickly, verb''))
     = [(''run'', ''to move quickly'', Some ''verb'')]
   \<and> ''to move quickly'' \<noteq> ''to move quickly, verb''"
  by (simp add: parser_defs)

text \<open>The amended statement of C6 at the entries \<open>apple, fruit\<close> and \<open>run, to move quickly, verb\<close>.\<close>

theorem entry_fields_by_commas_witness:
  "parseEntry (''apple'' @ '','' @ '' fruit'') =
     Inr \<lparr>term_f = ''apple'', definition_f = ''fruit'', mastered = Some False,
          partOfSpeech = None, exampleSentences = None\<rparr>
   \<and> trim ''apple'' = ''apple'' \<and> trim '' fruit'' = ''fruit''
   \<and> parseEntry (''run'' @ '','' @ '' to move quickly'' @ '','' @ '' verb'') =
     Inr \<lparr>term_f = ''run'', definition_f = ''to move quickly'', mastered = Some False,
          partOfSpeech = Some ''verb'', exampleSentences = None\<rparr>
   \<and> trim ''run'' = ''run'' \<and> trim '' to move quickly'' = ''to move quickly''
   \<and> trim '' verb'' = ''verb''
   \<and> map definition_f (successful (parseBulkImportText ienv0 ''run, to move quickly, verb''))
     = [''to move quickly'']
   \<and> CHR '','' \<notin> set ''to move quickly''"
proof -
  note t = entry_fields_by_commas [of ienv0 "''run, to move quickly, verb''"]
  note general = t [THEN conjunct1, rule_format]
  note one = t [THEN conjunct2, THEN conjunct1, rule_format]
  note two = t [THEN conjunct2, THEN conjunct2, THEN conjunct1, rule_format]
  note whole = t [THEN conjunct2, THEN conjunct2, THEN conjunct2, rule_format]
  have pa: "parseEntry (''apple'' @ '','' @ '' fruit'') =
     Inr \<lparr>term_f = ''apple'', definition_f = ''fruit'', mastered = Some False,
          partOfSpeech = None, exampleSentences = None\<rparr>"
    by (simp add: parser_defs)
  have pr: "parseEntry (''run'' @ '','' @ '' to move quickly'' @ '','' @ '' verb'') =
     Inr \<lparr>term_f = ''run'', definition_f = ''to move quickly'', mastered = Some False,
          partOfSpeech = Some ''verb'', exampleSentences = None\<rparr>"
    by (simp add: parser_defs)
  have ca: "CHR '','' \<notin> set ''apple'' \<and> CHR '','' \<notin> set '' fruit'' \<and>
            parseEntry (''apple'' @ '','' @ '' fruit'') =
              Inr \<lparr>term_f = ''apple'', definition_f = ''fruit'', mastered = Some False,
                   partOfSpeech = None, exampleSentences = None\<rparr>"
    using pa by simp
  have cr: "CHR '','' \<notin> set ''run'' \<and> CHR '','' \<notin> set '' to move quickly'' \<and>
            CHR '','' \<notin> set '' verb'' \<and>
            parseEntry (''run'' @ '','' @ '' to move quickly'' @ '','' @ '' verb'') =
              Inr \<lparr>term_f = ''run'', definition_f = ''to move quickly'', mastered = Some False,
                   partOfSpeech = Some ''verb'', exampleSentences = None\<rparr>"
    using pr by simp
  have s: "successful (parseBulkImportText ienv0 ''run, to move quickly, verb'') =
     [\<lparr>term_f = ''run'', definition_f = ''to move quickly'', mastered = Some False,
        partOfSpeech = Some ''verb'', exampleSentences = None, id_f = uuidAt ienv0 0,
        createdAt = isoTimeAt ienv0 0\<rparr>]"
    by (simp add: parser_defs)
  have m: "\<lparr>term_f = ''run'', definition_f = ''to move quickly'', mastered = Some False,
        partOfSpeech = Some ''verb'', exampleSentences = None, id_f = uuidAt ienv0 0,
        createdAt = isoTimeAt ienv0 0\<rparr>
      \<in> set (successful (parseBulkImportText ienv0 ''run, to move quickly, verb''))"
    unfolding s by simp
  have g: "term_f \<lparr>term_f = ''run'', definition_f = ''to move quickly'', mastered = Some False,
          partOfSpeech = Some ''verb'', exampleSentences = None\<rparr> =
       trim (takeWhile (\<lambda>ch. ch \<noteq> CHR '','') (''run'' @ '','' @ '' to move quickly'' @ '','' @ '' verb''))"
    using general [OF pr] unfolding Let_def by blast
  from one [OF ca] have ea: "''apple'' = trim ''apple''" "''fruit'' = trim '' fruit''"
    by simp_all
  note ta = ea [symmetric]
  from two [OF cr] have "''run'' = trim ''run''" "''to move quickly'' = trim '' to move quickly''"
    "Some ''verb'' = (if trim '' verb'' = [] then None else Some (trim '' verb''))"
    by simp_all
  then have tr: "trim ''run'' = ''run''" "trim '' to move quickly'' = ''to move quickly''"
    "trim '' verb'' = ''verb''"
    by (auto split: if_splits)
  from whole [OF m] have nc: "CHR '','' \<notin> set ''to move quickly''"
    by simp
  have md: "map definition_f (successful (parseBulkImportText ienv0 ''run, to move quickly, verb''))
     = [''to move quickly'']"
    unfolding s by simp
  from pa pr ta tr md nc g show ?thesis by blast
qed

text \<open>
  C7, as stated: any text of one malformed line and \<open>N\<close> well-formed lines gives
  exactly one failure. The text \<open>x;y\<close> is a single line without a comma (\<open>N = 0\<close>);
  having no line break it is split on the semicolon and gives two failures.
\<close>

theorem one_line_with_semicolon_counterexample:
  "CHR 0x0A \<notin> set ''x;y'' \<and> trim ''x;y'' \<noteq> [] \<and> isl (parseEntry (trim ''x;y''))
   \<and> length (failed (parseBulkImportText ienv0 ''x;y'')) = 2"
  by (simp add: parser_defs)

text \<open>The amended statement of C7 at three lines, the second of which has no comma.\<close>

theorem parse_one_malformed_line_witness:
  "trim (lines0 ! 1) \<noteq> [] \<and> isl (parseEntry (trim (lines0 ! 1)))
   \<and> length (successful (parseBulkImportText ienv0 (join [CHR 0x0A] lines0))) = 2
   \<and> map rawText (failed (parseBulkImportText ienv0 (join [CHR 0x0A] lines0))) = [''onlyoneterm'']"
proof -
  have h1: "\<forall>l \<in> set lines0. CHR 0x0A \<notin> set l" by (simp add: lines0_def)
  have h2: "(1::nat) < length lines0" by (simp add: lines0_def)
  have n1: "lines0 ! 1 = ''  onlyoneterm  ''" by (simp add: lines0_def)
  have t1: "trim ''  onlyoneterm  '' = ''onlyoneterm''" by (simp add: trim_def isWhitespace_def)
  have h3: "trim (lines0 ! 1) \<noteq> [] \<and> parseEntry (trim (lines0 ! 1)) =
      Inl ''Missing comma separator. Expected format: \"vocabulary, meaning[, partOfSpeech[, examples]]\"''"
    unfolding n1 t1 by (simp add: parseEntry_def trim_def isWhitespace_def)
  have len: "length lines0 = 3" by (simp add: lines0_def)
  have g0: "trim (lines0 ! 0) \<noteq> [] \<and> (\<exists>p. parseEntry (trim (lines0 ! 0)) = Inr p)"
    by (simp add: lines0_def parser_defs)
  have g2: "trim (lines0 ! 2) \<noteq> [] \<and> (\<exists>p. parseEntry (trim (lines0 ! 2)) = Inr p)"
    by (simp add: lines0_def parser_defs)
  have h4: "\<forall>i < length lines0. i \<noteq> 1 \<longrightarrow>
         trim (lines0 ! i) \<noteq> [] \<and> (\<exists>p. parseEntry (trim (lines0 ! i)) = Inr p)"
  proof (intro allI impI)
    fix i assume "i < length lines0" "i \<noteq> 1"
    then have "i = 0 \<or> i = 2" unfolding len by linarith
    then show "trim (lines0 ! i) \<noteq> [] \<and> (\<exists>p. parseEntry (trim (lines0 ! i)) = Inr p)"
      using g0 g2 by blast
  qed
  have h5: "2 \<le> length lines0 \<or> CHR '';'' \<notin> set (lines0 ! 1)" unfolding len by simp
  note t = parse_one_malformed_line [OF h1 h2 h3 h4 h5, of ienv0, unfolded Let_def]
  from t have c1: "length (successful (parseBulkImportText ienv0 (join [CHR 0x0A] lines0))) = length lines0 - 1"
    by (rule conjunct1)
  from t have c2: "failed (parseBulkImportText ienv0 (join [CHR 0x0A] lines0)) =
      [\<lparr>rawText = trim (lines0 ! 1), error = ''Missing comma separator. Expected format: \"vocabulary, meaning[, partOfSpeech[, examples]]\"''\<rparr>]"
    by (rule conjunct2[OF conjunct2])
  have i3: "isl (parseEntry (trim (lines0 ! 1)))" using h3 by simp
  show ?thesis
    using h3 i3 unfolding c1 c2 len n1 t1 by simp
qed

section \<open>Properties of the persistence functions\<close>

lemma toJSON_inj: "toJSON c = toJSON c' \<Longrightarrow> c = c'"
proof -
  assume e: "toJSON c = toJSON c'"
  obtain m where m: "toJSON c = JObj m" by (simp add: toJSON_def)
  have p: "\<And>k. (case toJSON c of JObj f \<Rightarrow> f k | _ \<Rightarrow> None) = (case toJSON c' of JObj f \<Rightarrow> f k | _ \<Rightarrow> None)"
    using e by simp
  have "id_f c = id_f c'" using p[of "''id''"] by (simp add: toJSON_def)
  moreover have "term_f c = term_f c'" using p[of "''term''"] by (simp add: toJSON_def)
  moreover have "definition_f c = definition_f c'" using p[of "''definition''"] by (simp add: toJSON_def)
  moreover have "createdAt c = createdAt c'" using p[of "''createdAt''"] by (simp add: toJSON_def)
  moreover have "mastered c = mastered c'" using p[of "''mastered''"]
    by (cases "mastered c"; cases "mastered c'") (simp_all add: toJSON_def)
  moreover have "partOfSpeech c = partOfSpeech c'" using p[of "''partOfSpeech''"]
    by (cases "partOfSpeech c"; cases "partOfSpeech c'") (simp_all add: toJSON_def)
  moreover have "inj JStr" by (simp add: inj_def)
  then have "exampleSentences c = exampleSentences c'" using p[of "''exampleSentences''"]
    by (cases "exampleSentences c"; cases "exampleSentences c'")
       (simp_all add: toJSON_def inj_map_eq_map)
  ultimately show "c = c'" by simp
qed

lemma isValid_toJSON:
  "isValid (toJSON c) = Inr (id_f c \<noteq> [] \<and> mastered c \<noteq> None)"
  by (cases "mastered c")
     (simp_all add: isValid_def toJSON_def truthyValue_def isStringValue_def isBooleanValue_def)






text \<open>
  C9. Whenever the write of \<open>saveToLocalStorage\<close> meets a \<open>QuotaExceededError\<close>, the
  function throws an \<open>Error\<close> whose message contains the decimal number of cards and
  differs from the message for a disabled storage, the storage is as before the call
  (so a load returns what it returned before), and the effect that called it leaves the
  state, with its card list, unchanged.
\<close>

theorem save_quota_exceeded:
  assumes "fst (setItem st STORAGE_KEY (JsonText (storageSchema now cs)))
             = Inl (DOMException ''QuotaExceededError'')"
  shows "saveToLocalStorage now cs st = (Inl (Error (quotaMessage (length cs))), st)
       \<and> sublist (toString (length cs)) (quotaMessage (length cs))
       \<and> quotaMessage (length cs) \<noteq> securityMessage
       \<and> loadFromLocalStorage nowMs (snd (saveToLocalStorage now cs st)) = loadFromLocalStorage nowMs st
       \<and> (\<forall>state. cards state = cs \<longrightarrow>
            syncToStorage now state st = (state, st, Some (Error (quotaMessage (length cs)))))"
proof -
  from assms have q: "\<not> accessDenied st" "quotaExceeded st STORAGE_KEY (JsonText (storageSchema now cs))"
    by (auto simp: setItem_def split: if_splits)
  then have s: "saveToLocalStorage now cs st = (Inl (Error (quotaMessage (length cs))), st)"
    by (simp add: saveToLocalStorage_def setItem_def Let_def)
  have sub: "sublist (toString (length cs)) (quotaMessage (length cs))"
    unfolding quotaMessage_def sublist_def by (metis append.assoc)
  have ne: "quotaMessage (length cs) \<noteq> securityMessage"
    by (simp add: quotaMessage_def securityMessage_def)
  show ?thesis
    using s sub ne by (simp add: syncToStorage_def)
qed

theorem save_quota_exceeded_witness:
  "fst (setItem fullStorage STORAGE_KEY
         (JsonText (storageSchema ''2025-02-01T00:00:00.000Z'' (replicate 1200 cardB))))
     = Inl (DOMException ''QuotaExceededError'')
   \<and> fst (saveToLocalStorage ''2025-02-01T00:00:00.000Z'' (replicate 1200 cardB) fullStorage)
     = Inl (Error (''Storage limit exceeded. You have too many flashcards. '' @
                    ''Please delete some cards or export your collection. '' @
                    ''(Current: 1200 cards)''))
   \<and> sublist ''1200'' (quotaMessage 1200)
   \<and> snd (saveToLocalStorage ''2025-02-01T00:00:00.000Z'' (replicate 1200 cardB) fullStorage) = fullStorage
   \<and> fst (loadFromLocalStorage 0
        (snd (saveToLocalStorage ''2025-02-01T00:00:00.000Z'' (replicate 1200 cardB) fullStorage)))
     = [toJSON cardA]"
proof -
  have h: "fst (setItem fullStorage STORAGE_KEY
         (JsonText (storageSchema ''2025-02-01T00:00:00.000Z'' (replicate 1200 cardB))))
     = Inl (DOMException ''QuotaExceededError'')"
    by (simp add: setItem_def fullStorage_def)
  have t: "toString 1200 = ''1200''"
    by (simp add: toString.simps digitChar_def)
  have l: "fst (loadFromLocalStorage 0 fullStorage) = [toJSON cardA]"
    by (simp add: loadFromLocalStorage_def loadBody_def getItem_def getProp_def fullStorage_def
        storageSchema_def isValid_toJSON cardA_def)
  show ?thesis
    using h l save_quota_exceeded [OF h, of 0] by (simp add: t quotaMessage_def)
qed

end
